theory Spec2Isabelle
  imports Main
begin

section \<open>Data model\<close>

text \<open>
  The program is the script \<^verbatim>\<open>uxf_aws_download.py\<close>. It scans DynamoDB tables page by
  page, turns the items into a data frame, unpacks nested lists into rows and writes one
  CSV file per table.

  A stored value is a scalar, a missing value (what the data frame shows as NaN), or a
  list of values. An item is a Python dict: an association list with distinct keys, in
  insertion order.
\<close>

datatype 'a val = Scalar 'a | NaN | Seq "'a val list"

type_synonym 'a item = "(string \<times> 'a val) list"

text \<open>
  One page of a scan: \<^verbatim>\<open>response['Items']\<close> and, when more pages remain, the
  continuation token \<^verbatim>\<open>response['LastEvaluatedKey']\<close>. The key is absent from the last
  page, which is \<open>None\<close> here.
\<close>

record ('k, 'a) response =
  Items :: "'a item list"
  LastEvaluatedKey :: "'k option"

text \<open>
  Exceptions are values. \<open>ResourceNotFoundException\<close> is the only one the script catches;
  \<open>KeyError\<close> and \<open>ValueError\<close> come from the data frame operations, \<open>SystemExit\<close> from
  \<^verbatim>\<open>sys.exit\<close>, \<open>ClientError\<close> stands for every other failure of the store.
  \<open>ShapeMismatch\<close> is named by the specification only: no line of the script raises it.
\<close>

datatype py_error =
    ResourceNotFoundException
  | KeyError
  | ValueError
  | ShapeMismatch
  | SystemExit int
  | ClientError string

datatype 'r outcome = Returns 'r | Raises py_error

text \<open>
  \<^verbatim>\<open>table.scan(ExclusiveStartKey=k)\<close> is a function of the start key (\<open>None\<close> for the
  first call, which passes no key): the store is a read-only snapshot. The resource
  \<^verbatim>\<open>dynamodb\<close> maps a table name to its table.
\<close>

type_synonym ('k, 'a) table = "'k option \<Rightarrow> py_error + ('k, 'a) response"

type_synonym ('k, 'a) dynamodb = "string \<Rightarrow> ('k, 'a) table"

text \<open>A data frame with the default integer index: column names and rows of cells.\<close>

record 'a dataframe =
  columns :: "string list"
  rows :: "'a val list list"

text \<open>
  A data frame after \<^verbatim>\<open>set_index\<close>: the names of the index levels, the names of the
  remaining columns, and for every row its index label (one value per level) and its
  cells.
\<close>

record 'a indexed_frame =
  index_names :: "string list"
  data_columns :: "string list"
  index_rows :: "('a val list \<times> 'a val list) list"

text \<open>
  Everything the script does to the outside is an event of the trace, in order:
  printing, scan calls (table name and start key), writing a CSV file (working
  directory, file name, separator, frame), directory calls and opening the session.
\<close>

datatype ('k, 'a) event =
    Print string
  | PrintFrame "'a dataframe"
  | Scan string "'k option"
  | ToCsv string string string "'a dataframe"
  | Mkdir string
  | Chdir string
  | Session "(string \<times> string) list"

record ('k, 'a) world =
  cwd :: string
  dirs :: "string set"
  ticks :: nat
  trace :: "('k, 'a) event list"

definition emit :: "('k, 'a) event \<Rightarrow> ('k, 'a) world \<Rightarrow> ('k, 'a) world" where
  "emit e w = w\<lparr>trace := trace w @ [e]\<rparr>"

section \<open>The scanner\<close>

text \<open>
  Lines 42 to 44, the loop that runs while the last response holds a continuation
  token. It need not end (a store may hand out tokens for ever), so its result is an
  option: \<open>None\<close> is a run that never returns. An exception of \<^verbatim>\<open>table.scan\<close> leaves the
  loop.
\<close>

partial_function (option) scan_more ::
  "string \<Rightarrow> ('k, 'a) table \<Rightarrow> ('k, 'a) response \<Rightarrow> 'a item list \<Rightarrow> ('k, 'a) world
     \<Rightarrow> ('a item list outcome \<times> ('k, 'a) world) option"
where
  "scan_more table_name table response items w =
     (case LastEvaluatedKey response of
        None \<Rightarrow> Some (Returns items, w)
      | Some k \<Rightarrow>
          (case table (Some k) of
             Inl e \<Rightarrow> Some (Raises e, emit (Scan table_name (Some k)) w)
           | Inr response' \<Rightarrow>
               scan_more table_name table response' (items @ Items response')
                 (emit (Scan table_name (Some k)) w)))"

text \<open>
  Lines 37 to 44 (and, word for word, lines 99 to 105): the first scan call and the
  loop.
\<close>

definition scan_items ::
  "('k, 'a) dynamodb \<Rightarrow> string \<Rightarrow> ('k, 'a) world
     \<Rightarrow> ('a item list outcome \<times> ('k, 'a) world) option"
where
  "scan_items dynamodb table_name w =
     (let table = dynamodb table_name in
      case table None of
        Inl e \<Rightarrow> Some (Raises e, emit (Scan table_name None) w)
      | Inr response \<Rightarrow>
          scan_more table_name table response (Items response)
            (emit (Scan table_name None) w))"

text \<open>
  What the specification calls the pages of a table: the responses the store gives
  when the first call passes no key and every further call passes the token of the page
  before, up to a page without a token.
\<close>

fun page_chain :: "('k, 'a) table \<Rightarrow> 'k option \<Rightarrow> ('k, 'a) response list \<Rightarrow> bool" where
  "page_chain table k [] = False"
| "page_chain table k [r] = (table k = Inr r \<and> LastEvaluatedKey r = None)"
| "page_chain table k (r # r' # rs) =
     (table k = Inr r \<and> LastEvaluatedKey r \<noteq> None
        \<and> page_chain table (LastEvaluatedKey r) (r' # rs))"

definition scan_calls :: "('k, 'a) event list \<Rightarrow> ('k, 'a) event list" where
  "scan_calls evs = filter (\<lambda>e. case e of Scan n k \<Rightarrow> True | _ \<Rightarrow> False) evs"

section \<open>Names and time stamps\<close>

definition get_table_name :: "string \<Rightarrow> string \<Rightarrow> string \<Rightarrow> string" where
  "get_table_name experiment table prefix = prefix @ ''.'' @ experiment @ ''.'' @ table"

text \<open>The fields of \<^verbatim>\<open>time.localtime()\<close> that the format string can read.\<close>

record struct_time =
  tm_year :: nat
  tm_mon :: nat
  tm_mday :: nat
  tm_hour :: nat
  tm_min :: nat

definition digit :: "nat \<Rightarrow> char" where
  "digit n = ''0123456789'' ! n"

fun str_nat :: "nat \<Rightarrow> string" where
  "str_nat n = (if n < 10 then [digit n] else str_nat (n div 10) @ [digit (n mod 10)])"

declare str_nat.simps [simp del]

definition pad2 :: "nat \<Rightarrow> string" where
  "pad2 n = (if n < 10 then CHR ''0'' # str_nat n else str_nat n)"

text \<open>
  \<^verbatim>\<open>time.strftime\<close>: \<^verbatim>\<open>%Y\<close> is the year, \<^verbatim>\<open>%m\<close> the month, \<^verbatim>\<open>%d\<close> the day of the month,
  \<^verbatim>\<open>%H\<close> the hour and \<^verbatim>\<open>%M\<close> the minute, the last four as two digits; every other
  character stands for itself.
\<close>

definition directive :: "char \<Rightarrow> struct_time \<Rightarrow> string" where
  "directive d t =
     (if d = CHR ''Y'' then str_nat (tm_year t)
      else if d = CHR ''m'' then pad2 (tm_mon t)
      else if d = CHR ''d'' then pad2 (tm_mday t)
      else if d = CHR ''H'' then pad2 (tm_hour t)
      else if d = CHR ''M'' then pad2 (tm_min t)
      else [CHR ''%'', d])"

fun strftime :: "string \<Rightarrow> struct_time \<Rightarrow> string" where
  "strftime [] t = []"
| "strftime [c] t = [c]"
| "strftime (c # d # fmt) t =
     (if c = CHR ''%'' then directive d t @ strftime fmt t else c # strftime (d # fmt) t)"

text \<open>
  What the script takes from its surroundings: the clock (the local time at the n-th
  reading), the session (from the session arguments to the DynamoDB resource, or an
  exception), and \<open>realign\<close>, the data frame library's way of combining exploded columns
  that do not line up (see \<open>apply_explode\<close> below).
\<close>

record ('k, 'a) env =
  localtime :: "nat \<Rightarrow> struct_time"
  boto3_session :: "(string \<times> string) list \<Rightarrow> py_error + ('k, 'a) dynamodb"
  realign :: "'a indexed_frame \<Rightarrow> py_error + 'a indexed_frame"

text \<open>Lines 17 to 20. Reading the clock is an effect: the next reading is a later one.\<close>

definition get_output_file_name ::
  "('k, 'a) env \<Rightarrow> string \<Rightarrow> string \<Rightarrow> ('k, 'a) world \<Rightarrow> string \<times> ('k, 'a) world"
where
  "get_output_file_name env experiment table w =
     (let t = strftime ''%Y%m%d_%H%m'' (localtime env (ticks w))
      in (experiment @ ''_'' @ table @ ''_'' @ t @ ''.csv'', w\<lparr>ticks := Suc (ticks w)\<rparr>))"

section \<open>Data frames\<close>

text \<open>
  The script leaves the work on frames to pandas. These are the library calls it makes,
  with the behaviour the library documents for them, on the values above.

  \<^verbatim>\<open>DataFrame.from_records\<close> on a list of dicts: the columns are the keys in the order
  in which they are first seen, and a key that an item lacks gives a missing value.
\<close>

definition first_seen :: "'b list \<Rightarrow> 'b list" where
  "first_seen xs = rev (remdups (rev xs))"

definition lookup :: "'a item \<Rightarrow> string \<Rightarrow> 'a val" where
  "lookup it c = (case map_of it c of None \<Rightarrow> NaN | Some v \<Rightarrow> v)"

definition from_records :: "'a item list \<Rightarrow> 'a dataframe" where
  "from_records items =
     (let cols = first_seen (concat (map (map fst) items))
      in \<lparr>columns = cols, rows = map (\<lambda>it. map (lookup it) cols) items\<rparr>)"

text \<open>\<^verbatim>\<open>df.shape[0]\<close>, the number of rows.\<close>

definition shape0 :: "'a dataframe \<Rightarrow> nat" where
  "shape0 df = length (rows df)"

text \<open>
  \<^verbatim>\<open>df.set_index(keys)\<close> raises \<open>KeyError\<close> when a key is not a column; otherwise the key
  columns become the index and leave the columns.
\<close>

definition set_index :: "string list \<Rightarrow> 'a dataframe \<Rightarrow> py_error + 'a indexed_frame" where
  "set_index keys df =
     (if set keys \<subseteq> set (columns df)
      then Inr \<lparr>index_names = keys,
                data_columns = filter (\<lambda>c. c \<notin> set keys) (columns df),
                index_rows =
                  map (\<lambda>r. (map (lookup (zip (columns df) r)) keys,
                            map snd (filter (\<lambda>cv. fst cv \<notin> set keys) (zip (columns df) r))))
                    (rows df)\<rparr>
      else Inl KeyError)"

text \<open>
  \<^verbatim>\<open>Series.explode\<close> turns a list into one entry per element, an empty list into one
  missing value, and leaves everything else as one entry.
\<close>

fun explode_cell :: "'a val \<Rightarrow> 'a val list" where
  "explode_cell (Seq []) = [NaN]"
| "explode_cell (Seq (x # xs)) = x # xs"
| "explode_cell v = [v]"

definition height :: "'a val \<Rightarrow> nat" where
  "height v = length (explode_cell v)"

definition uniform_row :: "'a val list \<Rightarrow> bool" where
  "uniform_row cells =
     (case cells of [] \<Rightarrow> True | c # cs \<Rightarrow> list_all (\<lambda>d. height d = height c) cs)"

fun zip_cells :: "nat \<Rightarrow> 'b list list \<Rightarrow> 'b list list" where
  "zip_cells 0 xss = []"
| "zip_cells (Suc n) xss = map hd xss # zip_cells n (map tl xss)"

definition explode_row ::
  "'a val list \<times> 'a val list \<Rightarrow> ('a val list \<times> 'a val list) list"
where
  "explode_row r =
     (case snd r of
        [] \<Rightarrow> [r]
      | c # cs \<Rightarrow> map (Pair (fst r)) (zip_cells (height c) (map explode_cell (c # cs))))"

text \<open>
  \<^verbatim>\<open>.apply(pd.Series.explode)\<close> explodes every column on its own, each entry keeping
  the index label of its row, and then puts the exploded columns side by side. When in
  every row all cells explode to the same number of entries, the exploded columns have
  one and the same index and stand side by side by position: the frame of the exploded
  rows. (A frame without columns comes back as it is.) In every other case the result,
  a frame or an exception, is decided by how the data frame library aligns columns
  with different indexes. That code is no part of the script; it is the parameter
  \<open>realign\<close>.
\<close>

definition apply_explode ::
  "('a indexed_frame \<Rightarrow> py_error + 'a indexed_frame) \<Rightarrow> 'a indexed_frame
     \<Rightarrow> py_error + 'a indexed_frame"
where
  "apply_explode align fr =
     (if list_all (\<lambda>r. uniform_row (snd r)) (index_rows fr)
      then Inr (fr\<lparr>index_rows := concat (map explode_row (index_rows fr))\<rparr>)
      else align fr)"

text \<open>
  What pandas does there. It builds the result from the exploded columns; when their
  indexes are not all equal it reindexes every column to the union of the indexes, the
  labels without repetition, and reindexing a column whose index repeats a label raises
  \<open>ValueError\<close> (cannot reindex on an axis with duplicate labels). A column differs from
  another only if some list of two or more entries was exploded, which repeats the label
  of its row; so columns with equal indexes stand side by side and every other frame
  raises. The theorems below that do not name \<open>pandas_realign\<close> hold for every
  alignment; the examples run with this one.
\<close>

definition exploded_column ::
  "'a indexed_frame \<Rightarrow> nat \<Rightarrow> ('a val list \<times> 'a val) list"
where
  "exploded_column fr j =
     concat (map (\<lambda>r. map (Pair (fst r)) (explode_cell (snd r ! j))) (index_rows fr))"

definition pandas_realign :: "'a indexed_frame \<Rightarrow> py_error + 'a indexed_frame" where
  "pandas_realign fr =
     (case map (exploded_column fr) [0..<length (data_columns fr)] of
        [] \<Rightarrow> Inr fr
      | c # cs \<Rightarrow>
          if list_all (\<lambda>d. map fst d = map fst c) cs
          then Inr (fr\<lparr>index_rows :=
                          map (\<lambda>p. (fst (c ! p), map (\<lambda>d. snd (d ! p)) (c # cs)))
                            [0..<length c]\<rparr>)
          else Inl ValueError)"

text \<open>
  \<^verbatim>\<open>.reset_index()\<close> puts the index levels back in front of the columns; it raises
  \<open>ValueError\<close> when a level has the name of a column.
\<close>

definition reset_index :: "'a indexed_frame \<Rightarrow> py_error + 'a dataframe" where
  "reset_index fr =
     (if list_ex (\<lambda>k. k \<in> set (data_columns fr)) (index_names fr) then Inl ValueError
      else Inr \<lparr>columns = index_names fr @ data_columns fr,
                rows = map (\<lambda>r. fst r @ snd r) (index_rows fr)\<rparr>)"

text \<open>The chain \<^verbatim>\<open>res.set_index(keys).apply(pd.Series.explode).reset_index()\<close>.\<close>

definition explode_by_index ::
  "('a indexed_frame \<Rightarrow> py_error + 'a indexed_frame) \<Rightarrow> string list \<Rightarrow> 'a dataframe
     \<Rightarrow> py_error + 'a dataframe"
where
  "explode_by_index align keys res =
     (case set_index keys res of
        Inl e \<Rightarrow> Inl e
      | Inr fr \<Rightarrow>
          (case apply_explode align fr of
             Inl e \<Rightarrow> Inl e
           | Inr fr' \<Rightarrow> reset_index fr'))"


section \<open>Scanning a table into a frame, and saving a frame\<close>

text \<open>Lines 23 to 50.\<close>

definition scan_table_to_df ::
  "('k, 'a) env \<Rightarrow> ('k, 'a) dynamodb \<Rightarrow> string \<Rightarrow> bool \<Rightarrow> ('k, 'a) world
     \<Rightarrow> ('a dataframe outcome \<times> ('k, 'a) world) option"
where
  "scan_table_to_df env dynamodb table_name unpack w =
     (case scan_items dynamodb table_name w of
        None \<Rightarrow> None
      | Some (Raises e, w') \<Rightarrow> Some (Raises e, w')
      | Some (Returns items, w') \<Rightarrow>
          (let res = from_records items
           in if unpack \<and> shape0 res > 0
              then (case explode_by_index (realign env) [''ppid_session_dataname''] res of
                      Inl e \<Rightarrow> Some (Raises e, w')
                    | Inr res' \<Rightarrow> Some (Returns res', w'))
              else Some (Returns res, w')))"

text \<open>Lines 53 to 59. The file is written into the working directory.\<close>

definition save_dataframe ::
  "'a dataframe \<Rightarrow> string \<Rightarrow> string \<Rightarrow> ('k, 'a) world \<Rightarrow> ('k, 'a) world"
where
  "save_dataframe df file_name sep w =
     (if shape0 df > 0
      then emit (Print (file_name @ '': '' @ str_nat (shape0 df) @ '' rows.''))
             (emit (ToCsv (cwd w) file_name sep df) w)
      else emit (Print (file_name @ '': no data, skipping.'')) w)"

section \<open>Downloading\<close>

text \<open>
  The clause \<^verbatim>\<open>except ...ResourceNotFoundException\<close> of lines 78 and 111, with the message
  it prints: it catches this one exception and lets every other one pass.
\<close>

definition except_not_found ::
  "string \<Rightarrow> (unit outcome \<times> ('k, 'a) world) option \<Rightarrow> (unit outcome \<times> ('k, 'a) world) option"
where
  "except_not_found msg r =
     (case r of
        None \<Rightarrow> None
      | Some (Returns u, w) \<Rightarrow> Some (Returns u, w)
      | Some (Raises e, w) \<Rightarrow>
          (if e = ResourceNotFoundException then Some (Returns (), emit (Print msg) w)
           else Some (Raises e, w)))"

definition not_found_message :: "string \<Rightarrow> string \<Rightarrow> string" where
  "not_found_message out tbl = out @ '': table '' @ tbl @ '' not found, skipping.''"

definition tab :: string where
  "tab = [CHR 0x09]"

text \<open>Line 72: one file name per table, each with its own reading of the clock.\<close>

fun file_names ::
  "('k, 'a) env \<Rightarrow> string \<Rightarrow> string list \<Rightarrow> ('k, 'a) world \<Rightarrow> string list \<times> ('k, 'a) world"
where
  "file_names env experiment [] w = ([], w)"
| "file_names env experiment (t # ts) w =
     (case get_output_file_name env experiment t w of
        (f, w1) \<Rightarrow> (case file_names env experiment ts w1 of (fs, w2) \<Rightarrow> (f # fs, w2)))"

text \<open>Lines 75 and 76, the body of the \<^verbatim>\<open>try\<close>.\<close>

definition try_table ::
  "('k, 'a) env \<Rightarrow> ('k, 'a) dynamodb \<Rightarrow> string \<Rightarrow> string \<Rightarrow> ('k, 'a) world
     \<Rightarrow> (unit outcome \<times> ('k, 'a) world) option"
where
  "try_table env dynamodb tbl out w =
     (case scan_table_to_df env dynamodb tbl True w of
        None \<Rightarrow> None
      | Some (Raises e, w1) \<Rightarrow> Some (Raises e, w1)
      | Some (Returns data, w1) \<Rightarrow> Some (Returns (), save_dataframe data out tab w1))"

text \<open>Lines 73 to 79, the loop over the pairs of table name and file name.\<close>

fun download_loop ::
  "('k, 'a) env \<Rightarrow> ('k, 'a) dynamodb \<Rightarrow> (string \<times> string) list \<Rightarrow> ('k, 'a) world
     \<Rightarrow> (unit outcome \<times> ('k, 'a) world) option"
where
  "download_loop env dynamodb [] w = Some (Returns (), w)"
| "download_loop env dynamodb ((tbl, out) # rest) w =
     (case except_not_found (not_found_message out tbl) (try_table env dynamodb tbl out w) of
        None \<Rightarrow> None
      | Some (Raises e, w1) \<Rightarrow> Some (Raises e, w1)
      | Some (Returns u, w1) \<Rightarrow> download_loop env dynamodb rest w1)"

text \<open>Lines 62 to 79.\<close>

definition download_uxf_tables ::
  "('k, 'a) env \<Rightarrow> ('k, 'a) dynamodb \<Rightarrow> string \<Rightarrow> string list \<Rightarrow> string \<Rightarrow> ('k, 'a) world
     \<Rightarrow> (unit outcome \<times> ('k, 'a) world) option"
where
  "download_uxf_tables env dynamodb experiment tables prefix w =
     (let tnames = map (\<lambda>t. get_table_name experiment t prefix) tables
      in case file_names env experiment tables w of
           (fnames, w1) \<Rightarrow> download_loop env dynamodb (zip tnames fnames) w1)"

text \<open>
  Lines 99 to 109, the body of the \<^verbatim>\<open>try\<close> of \<^verbatim>\<open>download_tracker_data\<close>. Unlike
  \<^verbatim>\<open>scan_table_to_df\<close> it unpacks without looking at the number of rows.
\<close>

definition try_tracker ::
  "('k, 'a) env \<Rightarrow> ('k, 'a) dynamodb \<Rightarrow> string \<Rightarrow> string \<Rightarrow> ('k, 'a) world
     \<Rightarrow> (unit outcome \<times> ('k, 'a) world) option"
where
  "try_tracker env dynamodb tname fname w =
     (case scan_items dynamodb tname w of
        None \<Rightarrow> None
      | Some (Raises e, w1) \<Rightarrow> Some (Raises e, w1)
      | Some (Returns items, w1) \<Rightarrow>
          (case explode_by_index (realign env) [''ppid_session_dataname'', ''trial_num'']
                  (from_records items) of
             Inl e \<Rightarrow> Some (Raises e, w1)
           | Inr res \<Rightarrow> Some (Returns (), save_dataframe res fname tab w1)))"

text \<open>Lines 82 to 112.\<close>

definition download_tracker_data ::
  "('k, 'a) env \<Rightarrow> ('k, 'a) dynamodb \<Rightarrow> string \<Rightarrow> string \<Rightarrow> ('k, 'a) world
     \<Rightarrow> (unit outcome \<times> ('k, 'a) world) option"
where
  "download_tracker_data env dynamodb experiment prefix w =
     (let tname = get_table_name experiment ''Trackers'' prefix
      in case get_output_file_name env experiment ''Trackers'' w of
           (fname, w1) \<Rightarrow>
             except_not_found (not_found_message fname tname)
               (try_tracker env dynamodb tname fname w1))"

section \<open>The script\<close>

definition PREFIX :: string where
  "PREFIX = ''UXFData''"

definition TABLES :: "string list" where
  "TABLES = [''ParticipantDetails'', ''TrialResults'', ''Settings'', ''SessionLog'',
             ''SummaryStatistics'']"

text \<open>The parsed command line.\<close>

record options =
  opt_experiment :: string
  opt_region :: "string option"
  opt_p :: bool
  opt_tracker :: bool
  opt_folder :: bool
  opt_profile :: "string option"
  opt_access :: "string option"
  opt_secret :: "string option"

text \<open>
  The directory calls act on names: \<^verbatim>\<open>os.path.isdir\<close> asks whether the name is a known
  directory, \<^verbatim>\<open>os.mkdir\<close> makes it one, \<^verbatim>\<open>os.chdir\<close> makes it the working directory.
  Failures of the operating system are outside the model.
\<close>

definition os_path_join :: "string \<Rightarrow> string \<Rightarrow> string" where
  "os_path_join a b =
     (case b of
        [] \<Rightarrow> (case rev a of [] \<Rightarrow> a | c # cs \<Rightarrow> if c = CHR ''/'' then a else a @ ''/'')
      | c # cs \<Rightarrow>
          if c = CHR ''/'' then b
          else (case rev a of [] \<Rightarrow> b | d # ds \<Rightarrow> if d = CHR ''/'' then a @ b else a @ ''/'' @ b))"

definition os_mkdir :: "string \<Rightarrow> ('k, 'a) world \<Rightarrow> ('k, 'a) world" where
  "os_mkdir path w = emit (Mkdir path) (w\<lparr>dirs := insert path (dirs w)\<rparr>)"

definition os_chdir :: "string \<Rightarrow> ('k, 'a) world \<Rightarrow> ('k, 'a) world" where
  "os_chdir path w = emit (Chdir path) (w\<lparr>cwd := path\<rparr>)"

text \<open>Lines 131 to 136: the new world and \<^verbatim>\<open>prev_wd\<close>.\<close>

definition enter_folder :: "options \<Rightarrow> ('k, 'a) world \<Rightarrow> string \<times> ('k, 'a) world" where
  "enter_folder opts w =
     (let data_folder = os_path_join (cwd w) (opt_experiment opts);
          w1 = (if data_folder \<in> dirs w then w else os_mkdir data_folder w);
          prev_wd = cwd w1
      in (prev_wd, os_chdir data_folder w1))"

definition quoted :: "string \<Rightarrow> string" where
  "quoted s = [CHR 0x22] @ s @ [CHR 0x22]"

definition retrieving_message :: "string \<Rightarrow> string" where
  "retrieving_message experiment =
     ''Retrieving results for UXF experiment '' @ quoted experiment @ ''...''"

definition details_message :: "string \<Rightarrow> string" where
  "details_message experiment =
     ''Participant details for UXF experiment '' @ quoted experiment @ '':'' @ [CHR 0x0A]"

text \<open>Lines 154 to 162, the branch without \<^verbatim>\<open>-p\<close>.\<close>

definition download_all ::
  "('k, 'a) env \<Rightarrow> ('k, 'a) dynamodb \<Rightarrow> options \<Rightarrow> ('k, 'a) world
     \<Rightarrow> (unit outcome \<times> ('k, 'a) world) option"
where
  "download_all env ddb opts w =
     (case download_uxf_tables env ddb (opt_experiment opts) TABLES PREFIX
             (emit (Print (retrieving_message (opt_experiment opts))) w) of
        None \<Rightarrow> None
      | Some (Raises e, w1) \<Rightarrow> Some (Raises e, w1)
      | Some (Returns u, w1) \<Rightarrow>
          (case (if opt_tracker opts
                 then download_tracker_data env ddb (opt_experiment opts) PREFIX w1
                 else Some (Returns (), w1)) of
             None \<Rightarrow> None
           | Some (Raises e, w2) \<Rightarrow> Some (Raises e, w2)
           | Some (Returns u', w2) \<Rightarrow> Some (Returns (), emit (Print ''Download complete.'') w2)))"

text \<open>Lines 166 to 169, the branch with \<^verbatim>\<open>-p\<close>.\<close>

definition participant_details ::
  "('k, 'a) env \<Rightarrow> ('k, 'a) dynamodb \<Rightarrow> options \<Rightarrow> ('k, 'a) world
     \<Rightarrow> (unit outcome \<times> ('k, 'a) world) option"
where
  "participant_details env ddb opts w =
     (case scan_table_to_df env ddb
             (get_table_name (opt_experiment opts) ''ParticipantDetails'' PREFIX) True
             (emit (Print (details_message (opt_experiment opts))) w) of
        None \<Rightarrow> None
      | Some (Raises e, w1) \<Rightarrow> Some (Raises e, w1)
      | Some (Returns df, w1) \<Rightarrow>
          (case get_output_file_name env (opt_experiment opts) ''ParticipantDetails''
                  (emit (PrintFrame df) w1) of
             (fname, w2) \<Rightarrow> Some (Returns (), save_dataframe df fname tab w2)))"

text \<open>Lines 150 to 172: the session, the downloads, and the way back.\<close>

definition run_session ::
  "('k, 'a) env \<Rightarrow> options \<Rightarrow> string \<Rightarrow> (string \<times> string) list \<Rightarrow> ('k, 'a) world
     \<Rightarrow> (unit outcome \<times> ('k, 'a) world) option"
where
  "run_session env opts prev_wd sess_args w =
     (case boto3_session env sess_args of
        Inl e \<Rightarrow> Some (Raises e, emit (Session sess_args) w)
      | Inr ddb \<Rightarrow>
          (case (if opt_p opts then participant_details env ddb opts (emit (Session sess_args) w)
                 else download_all env ddb opts (emit (Session sess_args) w)) of
             None \<Rightarrow> None
           | Some (Raises e, w1) \<Rightarrow> Some (Raises e, w1)
           | Some (Returns u, w1) \<Rightarrow>
               Some (Returns (), if opt_folder opts then os_chdir prev_wd w1 else w1)))"

definition usage_error :: string where
  "usage_error =
     ''Error: --access and --secret must both be specified to use credentials from the command line!''"

text \<open>
  Lines 131 to 172. Without \<^verbatim>\<open>-f\<close> the name \<^verbatim>\<open>prev_wd\<close> is not bound and not read. The
  two tests of lines 144 and 147 are the four cases of the two options.
\<close>

definition main ::
  "('k, 'a) env \<Rightarrow> options \<Rightarrow> ('k, 'a) world \<Rightarrow> (unit outcome \<times> ('k, 'a) world) option"
where
  "main env opts w =
     (case (if opt_folder opts then enter_folder opts w else ([], w)) of
        (prev_wd, w1) \<Rightarrow>
          (let sess_args =
                 (case opt_region opts of None \<Rightarrow> [] | Some r \<Rightarrow> [(''region_name'', r)])
                 @ (case opt_profile opts of None \<Rightarrow> [] | Some pr \<Rightarrow> [(''profile_name'', pr)])
           in case opt_access opts of
                Some a \<Rightarrow>
                  (case opt_secret opts of
                     Some s \<Rightarrow>
                       run_session env opts prev_wd
                         (sess_args @ [(''aws_access_key_id'', a), (''aws_secret_access_key'', s)])
                         w1
                   | None \<Rightarrow> Some (Raises (SystemExit (- 1)), emit (Print usage_error) w1))
              | None \<Rightarrow>
                  (case opt_secret opts of
                     Some s \<Rightarrow> Some (Raises (SystemExit (- 1)), emit (Print usage_error) w1)
                   | None \<Rightarrow> run_session env opts prev_wd sess_args w1)))"

text \<open>
  The exit status of the process: 0 after a normal end, the low byte of the argument
  of \<^verbatim>\<open>sys.exit\<close>, and 1 after any other exception.
\<close>

definition exit_status :: "unit outcome \<Rightarrow> nat" where
  "exit_status r =
     (case r of
        Returns u \<Rightarrow> 0
      | Raises e \<Rightarrow> (case e of SystemExit n \<Rightarrow> nat (n mod 256) | _ \<Rightarrow> 1))"

section \<open>Example inputs\<close>

text \<open>A table of three pages, the middle one empty, and a world to start from.\<close>

definition example_pages :: "(string, string) response list" where
  "example_pages =
     [\<lparr>Items = [[(''id'', Scalar ''a'')], [(''id'', Scalar ''b'')]], LastEvaluatedKey = Some ''b''\<rparr>,
      \<lparr>Items = [], LastEvaluatedKey = Some ''b2''\<rparr>,
      \<lparr>Items = [[(''id'', Scalar ''c'')]], LastEvaluatedKey = None\<rparr>]"

definition example_table :: "(string, string) table" where
  "example_table k =
     (if k = None then Inr (example_pages ! 0)
      else if k = Some ''b'' then Inr (example_pages ! 1)
      else if k = Some ''b2'' then Inr (example_pages ! 2)
      else Inl (ClientError ''ValidationException''))"

definition w0 :: "(string, string) world" where
  "w0 = \<lparr>cwd = ''/home/user'', dirs = {''/home/user''}, ticks = 0, trace = []\<rparr>"

text \<open>A clock that shows 15 March 2021, 14:27; a table without items; surroundings built
  from them, with the alignment of pandas.\<close>

definition example_time :: struct_time where
  "example_time = \<lparr>tm_year = 2021, tm_mon = 3, tm_mday = 15, tm_hour = 14, tm_min = 27\<rparr>"

definition empty_table :: "(string, string) table" where
  "empty_table k = Inr \<lparr>Items = [], LastEvaluatedKey = None\<rparr>"

definition env0 :: "(string, string) env" where
  "env0 = \<lparr>localtime = (\<lambda>n. example_time),
           boto3_session = (\<lambda>args. Inr (\<lambda>n. empty_table)),
           realign = pandas_realign\<rparr>"

text \<open>The events that reach the store: scan calls and the opening of the session.\<close>

definition network_event :: "('k, 'a) event \<Rightarrow> bool" where
  "network_event e = (case e of Scan n k \<Rightarrow> True | Session args \<Rightarrow> True | _ \<Rightarrow> False)"

text \<open>A command line: experiment \<^verbatim>\<open>Exp1\<close>, a region, the flag \<^verbatim>\<open>-f\<close>.\<close>

definition example_options :: options where
  "example_options =
     \<lparr>opt_experiment = ''Exp1'', opt_region = Some ''eu-west-1'', opt_p = False,
      opt_tracker = False, opt_folder = True, opt_profile = None,
      opt_access = None, opt_secret = None\<rparr>"

section \<open>What a run may do\<close>

text \<open>
  The events a run between the directory calls may add, given the working directory
  and the names of the tables it may scan: it prints, opens the session, scans these
  tables and writes files into this directory. It makes and changes no directory.
\<close>

definition run_event :: "string \<Rightarrow> string list \<Rightarrow> ('k, 'a) event \<Rightarrow> bool" where
  "run_event dir names e =
     (case e of
        Print s \<Rightarrow> True
      | PrintFrame df \<Rightarrow> True
      | Scan n k \<Rightarrow> n \<in> set names
      | ToCsv d f sep df \<Rightarrow> d = dir
      | Mkdir path \<Rightarrow> False
      | Chdir path \<Rightarrow> False
      | Session args \<Rightarrow> True)"

text \<open>
  A step from \<open>w\<close> to \<open>w'\<close> that keeps the working directory and the known directories
  and adds only such events.
\<close>

definition grows :: "string list \<Rightarrow> ('k, 'a) world \<Rightarrow> ('k, 'a) world \<Rightarrow> bool" where
  "grows names w w' =
     (cwd w' = cwd w \<and> dirs w' = dirs w
      \<and> (\<exists>evs. trace w' = trace w @ evs \<and> list_all (run_event (cwd w) names) evs))"

text \<open>The table kinds and table names that belong to a command line.\<close>

definition table_kinds :: "options \<Rightarrow> string list" where
  "table_kinds opts =
     (if opt_p opts then [''ParticipantDetails'']
      else if opt_tracker opts then TABLES @ [''Trackers'']
      else TABLES)"

definition table_names :: "options \<Rightarrow> string list" where
  "table_names opts = map (\<lambda>t. get_table_name (opt_experiment opts) t PREFIX) (table_kinds opts)"

text \<open>The scan calls on one table.\<close>

definition scan_of :: "string \<Rightarrow> ('k, 'a) event \<Rightarrow> bool" where
  "scan_of n e = (case e of Scan m k \<Rightarrow> m = n | _ \<Rightarrow> False)"

text \<open>The folder of lines 132 and 136.\<close>

definition data_folder :: "options \<Rightarrow> ('k, 'a) world \<Rightarrow> string" where
  "data_folder opts w = os_path_join (cwd w) (opt_experiment opts)"

text \<open>The surroundings with one table of every session's store replaced.\<close>

definition with_table :: "string \<Rightarrow> ('k, 'a) table \<Rightarrow> ('k, 'a) env \<Rightarrow> ('k, 'a) env" where
  "with_table n tbl env =
     env\<lparr>boto3_session :=
           (\<lambda>args. case boto3_session env args of
                      Inl e \<Rightarrow> Inl e
                    | Inr ddb \<Rightarrow> Inr (ddb(n := tbl)))\<rparr>"

text \<open>
  A store in which the table of participant details does not exist, the Trackers table
  holds the three pages above and every other table is empty; and the trace of the
  script on it, for the command line above.
\<close>

definition example_store :: "(string, string) dynamodb" where
  "example_store n =
     (if n = ''UXFData.Exp1.ParticipantDetails'' then (\<lambda>k. Inl ResourceNotFoundException)
      else if n = ''UXFData.Exp1.Trackers'' then example_table
      else empty_table)"

definition env1 :: "(string, string) env" where
  "env1 = env0\<lparr>boto3_session := (\<lambda>args. Inr example_store)\<rparr>"

definition example_trace :: "(string, string) event list" where
  "example_trace =
     [Mkdir ''/home/user/Exp1'',
      Chdir ''/home/user/Exp1'',
      Session [(''region_name'', ''eu-west-1'')],
      Print (retrieving_message ''Exp1''),
      Scan ''UXFData.Exp1.ParticipantDetails'' None,
      Print ''Exp1_ParticipantDetails_20210315_1403.csv: table UXFData.Exp1.ParticipantDetails not found, skipping.'',
      Scan ''UXFData.Exp1.TrialResults'' None,
      Print ''Exp1_TrialResults_20210315_1403.csv: no data, skipping.'',
      Scan ''UXFData.Exp1.Settings'' None,
      Print ''Exp1_Settings_20210315_1403.csv: no data, skipping.'',
      Scan ''UXFData.Exp1.SessionLog'' None,
      Print ''Exp1_SessionLog_20210315_1403.csv: no data, skipping.'',
      Scan ''UXFData.Exp1.SummaryStatistics'' None,
      Print ''Exp1_SummaryStatistics_20210315_1403.csv: no data, skipping.'',
      Print ''Download complete.'',
      Chdir ''/home/user'']"

section \<open>Records and their fields\<close>












section \<open>The scanner follows the continuation tokens\<close>

lemma scan_more_last:
  "LastEvaluatedKey r = None \<Longrightarrow> scan_more tn table r items w = Some (Returns items, w)"
  by (subst scan_more.simps) simp

lemma scan_more_step:
  "LastEvaluatedKey r = Some k \<Longrightarrow> table (Some k) = Inr r' \<Longrightarrow>
   scan_more tn table r items w =
     scan_more tn table r' (items @ Items r') (emit (Scan tn (Some k)) w)"
  by (subst scan_more.simps) simp

lemma scan_more_raise:
  "LastEvaluatedKey r = Some k \<Longrightarrow> table (Some k) = Inl e \<Longrightarrow>
   scan_more tn table r items w = Some (Raises e, emit (Scan tn (Some k)) w)"
  by (subst scan_more.simps) simp

lemma scan_more_chain:
  "page_chain table (Some k) ps \<Longrightarrow> LastEvaluatedKey r = Some k \<Longrightarrow>
   scan_more tn table r items w =
     Some (Returns (items @ concat (map Items ps)),
           w\<lparr>trace := trace w @ map (Scan tn) (Some k # map LastEvaluatedKey (butlast ps))\<rparr>)"
proof (induction ps arbitrary: k r items w)
  case Nil
  then show ?case by simp
next
  case (Cons p ps)
  show ?case
  proof (cases ps)
    case Nil
    with Cons.prems show ?thesis
      by (simp add: scan_more_step scan_more_last emit_def)
  next
    case (Cons q qs)
    with Cons.prems obtain k' where p: "table (Some k) = Inr p" "LastEvaluatedKey p = Some k'"
      and ch: "page_chain table (Some k') ps"
      by auto
    from Cons.IH [OF ch p(2)] Cons.prems(2) p \<open>ps = q # qs\<close> show ?thesis
      by (simp add: scan_more_step emit_def)
  qed
qed

lemma page_chain_last: "page_chain table k ps \<Longrightarrow> LastEvaluatedKey (last ps) = None"
  by (induction table k ps rule: page_chain.induct) auto

lemma scan_calls_append: "scan_calls (xs @ ys) = scan_calls xs @ scan_calls ys"
  by (simp add: scan_calls_def)

lemma scan_calls_Scan: "scan_calls (map (Scan tn) ks) = map (Scan tn) ks"
  by (induction ks) (simp_all add: scan_calls_def)

lemma scan_items_chain:
  assumes "page_chain (dynamodb table_name) None ps"
  shows "scan_items dynamodb table_name w =
           Some (Returns (concat (map Items ps)),
                 w\<lparr>trace := trace w @ map (Scan table_name) (None # map LastEvaluatedKey (butlast ps))\<rparr>)"
proof (cases ps)
  case Nil
  with assms show ?thesis by simp
next
  case (Cons p qs)
  show ?thesis
  proof (cases qs)
    case Nil
    with assms Cons show ?thesis
      by (simp add: scan_items_def scan_more_last emit_def)
  next
    case (Cons q qs')
    with assms \<open>ps = p # qs\<close> obtain k where p: "dynamodb table_name None = Inr p"
      "LastEvaluatedKey p = Some k" and ch: "page_chain (dynamodb table_name) (Some k) qs"
      by auto
    from scan_more_chain [OF ch p(2)] p \<open>ps = p # qs\<close> Cons show ?thesis
      by (simp add: scan_items_def emit_def)
  qed
qed

text \<open>
  Claim C1. When the pages of a table are \<open>ps\<close> (the store answers the call without a
  key with the first page, and the call with each page's token with the next page, up to
  a page without a token), the scan returns, its scan calls are exactly one per page (the
  first without a key, each further one with the token of the page before), the last
  page has no token, and the result is the concatenation of the pages' items, so that
  its size is the sum of the pages' item counts wherever the page boundaries fall.
  Without unpacking, \<^verbatim>\<open>scan_table_to_df\<close> returns the frame of these items, which has
  that many rows.
\<close>

theorem scan_issues_one_call_per_page:
  assumes "page_chain (dynamodb table_name) None ps"
  shows "\<exists>w'. scan_items dynamodb table_name w = Some (Returns (concat (map Items ps)), w')
           \<and> trace w' = trace w @ map (Scan table_name) (None # map LastEvaluatedKey (butlast ps))
           \<and> length (scan_calls (trace w')) = length (scan_calls (trace w)) + length ps
           \<and> LastEvaluatedKey (last ps) = None
           \<and> length (concat (map Items ps)) = sum_list (map (\<lambda>r. length (Items r)) ps)
           \<and> scan_table_to_df env dynamodb table_name False w
               = Some (Returns (from_records (concat (map Items ps))), w')
           \<and> shape0 (from_records (concat (map Items ps)))
               = sum_list (map (\<lambda>r. length (Items r)) ps)"
proof -
  define ks where "ks = None # map LastEvaluatedKey (butlast ps)"
  define w' where "w' = w\<lparr>trace := trace w @ map (Scan table_name) ks\<rparr>"
  from assms have "ps \<noteq> []" by (cases ps) simp_all
  then have calls: "length ks = length ps"
    by (cases ps) (simp_all add: ks_def)
  have run: "scan_items dynamodb table_name w = Some (Returns (concat (map Items ps)), w')"
    unfolding w'_def ks_def
    by (rule scan_items_chain [where dynamodb = dynamodb and table_name = table_name, OF assms])
  have tr: "trace w' = trace w @ map (Scan table_name) ks"
    by (simp add: w'_def)
  have "scan_calls (trace w') = scan_calls (trace w) @ map (Scan table_name) ks"
    unfolding tr scan_calls_append scan_calls_Scan ..
  with calls have cnt: "length (scan_calls (trace w')) = length (scan_calls (trace w)) + length ps"
    by simp
  have len: "length (concat (map Items ps)) = sum_list (map (\<lambda>r. length (Items r)) ps)"
    by (simp add: length_concat comp_def)
  from run have df: "scan_table_to_df env dynamodb table_name False w
      = Some (Returns (from_records (concat (map Items ps))), w')"
    by (simp add: scan_table_to_df_def)
  from len have sh: "shape0 (from_records (concat (map Items ps)))
      = sum_list (map (\<lambda>r. length (Items r)) ps)"
    by (simp add: shape0_def from_records_def Let_def)
  from run tr cnt page_chain_last [OF assms] len df sh show ?thesis
    unfolding ks_def by blast
qed

theorem scan_issues_one_call_per_page_witness:
  "page_chain example_table None example_pages
   \<and> (\<exists>w'. scan_items (\<lambda>n. example_table) ''UXFData.Exp1.Settings'' w0 =
         Some (Returns [[(''id'', Scalar ''a'')], [(''id'', Scalar ''b'')], [(''id'', Scalar ''c'')]], w')
       \<and> trace w' = map (Scan ''UXFData.Exp1.Settings'') [None, Some ''b'', Some ''b2'']
       \<and> length (scan_calls (trace w')) = 3)"
proof -
  have ch: "page_chain ((\<lambda>n. example_table) ''UXFData.Exp1.Settings'') None example_pages"
    by (simp add: example_table_def example_pages_def)
  from scan_issues_one_call_per_page
    [where dynamodb = "\<lambda>n. example_table" and table_name = "''UXFData.Exp1.Settings''" and w = w0, OF ch]
  obtain w' where
    "scan_items (\<lambda>n. example_table) ''UXFData.Exp1.Settings'' w0 =
       Some (Returns (concat (map Items example_pages)), w')"
    "trace w' = trace w0 @ map (Scan ''UXFData.Exp1.Settings'')
        (None # map LastEvaluatedKey (butlast example_pages))"
    "length (scan_calls (trace w')) = length (scan_calls (trace w0)) + length example_pages"
    by blast
  then have
    "scan_items (\<lambda>n. example_table) ''UXFData.Exp1.Settings'' w0 =
       Some (Returns [[(''id'', Scalar ''a'')], [(''id'', Scalar ''b'')], [(''id'', Scalar ''c'')]], w')
     \<and> trace w' = map (Scan ''UXFData.Exp1.Settings'') [None, Some ''b'', Some ''b2'']
     \<and> length (scan_calls (trace w')) = 3"
    by (simp add: example_pages_def w0_def scan_calls_def)
  with ch show ?thesis by blast
qed

section \<open>The time stamp of the file name\<close>

lemma str_nat_digit: "n < 10 \<Longrightarrow> str_nat n = [digit n]"
  by (simp add: str_nat.simps)

lemma str_nat_step: "\<not> n < 10 \<Longrightarrow> str_nat n = str_nat (n div 10) @ [digit (n mod 10)]"
  by (subst str_nat.simps) simp

lemma timestamp_format:
  "strftime ''%Y%m%d_%H%m'' t =
     str_nat (tm_year t) @ pad2 (tm_mon t) @ pad2 (tm_mday t) @ ''_'' @ pad2 (tm_hour t)
       @ pad2 (tm_mon t)"
  by (simp add: directive_def)

lemma example_stamp: "strftime ''%Y%m%d_%H%m'' example_time = ''20210315_1403''"
  unfolding timestamp_format
  by (simp add: example_time_def pad2_def str_nat_digit str_nat_step digit_def)

lemma stamp_ignores_minute:
  "strftime ''%Y%m%d_%H%m'' (t\<lparr>tm_min := m\<rparr>) = strftime ''%Y%m%d_%H%m'' t"
  unfolding timestamp_format by simp

text \<open>
  Claim C4. The file name is experiment, table kind and time stamp, joined by
  underscores and ended by \<^verbatim>\<open>.csv\<close>; but the format string of line 19 ends in \<^verbatim>\<open>%m\<close>, the
  month, where the minute is \<^verbatim>\<open>%M\<close>. At 14:27 on 15 March 2021 the name ends in
  \<^verbatim>\<open>20210315_1403\<close>, and no file name depends on the minute at all.
\<close>

theorem file_name_has_month_in_place_of_minute:
  "fst (get_output_file_name env0 ''Exp1'' ''TrialResults'' w0)
     = ''Exp1_TrialResults_20210315_1403.csv''
   \<and> tm_min (localtime env0 (ticks w0)) = 27
   \<and> (\<forall>t m. strftime ''%Y%m%d_%H%m'' (t\<lparr>tm_min := m\<rparr>) = strftime ''%Y%m%d_%H%m'' t)"
proof -
  have "localtime env0 (ticks w0) = example_time"
    by (simp add: env0_def)
  then have "fst (get_output_file_name env0 ''Exp1'' ''TrialResults'' w0)
     = ''Exp1_TrialResults_20210315_1403.csv''"
    by (simp add: get_output_file_name_def example_stamp del: strftime.simps)
  moreover have "tm_min (localtime env0 (ticks w0)) = 27"
    by (simp add: env0_def example_time_def)
  ultimately show ?thesis
    using stamp_ignores_minute by blast
qed

section \<open>Tables without items\<close>

lemma from_records_empty: "from_records [] = \<lparr>columns = [], rows = []\<rparr>"
  by (simp add: from_records_def first_seen_def)

lemma empty_scan_is_skipped:
  assumes "scan_items dynamodb tbl w = Some (Returns [], w1)"
  shows "try_table env dynamodb tbl out w =
           Some (Returns (), emit (Print (out @ '': no data, skipping.'')) w1)"
  using assms
  by (simp add: try_table_def scan_table_to_df_def from_records_empty shape0_def
      save_dataframe_def)

lemma empty_tracker_scan_raises:
  assumes "scan_items dynamodb tname w = Some (Returns [], w1)"
  shows "try_tracker env dynamodb tname fname w = Some (Raises KeyError, w1)"
  using assms
  by (simp add: try_tracker_def from_records_empty explode_by_index_def set_index_def)

lemma scan_empty_table:
  "scan_items (\<lambda>n. empty_table) tn w = Some (Returns [], emit (Scan tn None) w)"
  by (simp add: scan_items_def empty_table_def scan_more_last)

lemma example_file_name:
  "get_output_file_name env0 ''Exp1'' t w
     = (''Exp1_'' @ t @ ''_20210315_1403.csv'', w\<lparr>ticks := Suc (ticks w)\<rparr>)"
  by (simp add: get_output_file_name_def env0_def example_stamp del: strftime.simps)

text \<open>
  Claim C3. A table whose scan returns no items gives the empty frame; for the tables
  of \<^verbatim>\<open>download_uxf_tables\<close> nothing is unpacked, no file is written and the line
  \<^verbatim>\<open>no data, skipping.\<close> is printed (\<open>empty_scan_is_skipped\<close>). The Trackers table goes
  through \<^verbatim>\<open>download_tracker_data\<close>, which lacks the test of the number of rows that line
  47 has: \<^verbatim>\<open>set_index\<close> on the frame without columns raises \<open>KeyError\<close>, which the
  \<^verbatim>\<open>except\<close> clause does not catch. Here both runs are evaluated on an empty table.
\<close>

theorem empty_tracker_table_raises_key_error:
  "download_tracker_data env0 (\<lambda>n. empty_table) ''Exp1'' PREFIX w0
     = Some (Raises KeyError, w0\<lparr>ticks := 1, trace := [Scan ''UXFData.Exp1.Trackers'' None]\<rparr>)
   \<and> download_uxf_tables env0 (\<lambda>n. empty_table) ''Exp1'' [''TrialResults''] PREFIX w0
     = Some (Returns (),
         w0\<lparr>ticks := 1,
            trace := [Scan ''UXFData.Exp1.TrialResults'' None,
                      Print ''Exp1_TrialResults_20210315_1403.csv: no data, skipping.'']\<rparr>)"
proof -
  have "download_tracker_data env0 (\<lambda>n. empty_table) ''Exp1'' PREFIX w0
     = Some (Raises KeyError, w0\<lparr>ticks := 1, trace := [Scan ''UXFData.Exp1.Trackers'' None]\<rparr>)"
    by (simp add: download_tracker_data_def example_file_name
        empty_tracker_scan_raises [OF scan_empty_table] except_not_found_def
        get_table_name_def PREFIX_def emit_def w0_def)
  moreover have "download_uxf_tables env0 (\<lambda>n. empty_table) ''Exp1'' [''TrialResults''] PREFIX w0
     = Some (Returns (),
         w0\<lparr>ticks := 1,
            trace := [Scan ''UXFData.Exp1.TrialResults'' None,
                      Print ''Exp1_TrialResults_20210315_1403.csv: no data, skipping.'']\<rparr>)"
    by (simp add: download_uxf_tables_def example_file_name
        empty_scan_is_skipped [OF scan_empty_table] except_not_found_def
        get_table_name_def PREFIX_def emit_def w0_def)
  ultimately show ?thesis by simp
qed

section \<open>Half a pair of credentials\<close>

lemma enter_folder_trace:
  "filter network_event (trace (snd (enter_folder opts w))) = filter network_event (trace w)"
  by (simp add: enter_folder_def Let_def os_chdir_def os_mkdir_def emit_def network_event_def)

lemma usage_exit:
  assumes "(opt_access opts = None) \<noteq> (opt_secret opts = None)"
  shows "main env opts w =
     Some (Raises (SystemExit (- 1)),
       emit (Print usage_error) (if opt_folder opts then snd (enter_folder opts w) else w))"
  using assms
  by (cases "opt_access opts"; cases "opt_secret opts")
     (auto simp: main_def split: prod.splits)

text \<open>
  Claim C8. When exactly one of \<^verbatim>\<open>--access\<close> and \<^verbatim>\<open>--secret\<close> is given, the script prints
  the error message and leaves by \<^verbatim>\<open>sys.exit(-1)\<close>, an exit status other than 0; the
  message is the last thing it does, and up to there it has opened no session and
  made no scan call.
\<close>

theorem partial_credentials_exit_before_session:
  assumes "(opt_access opts = None) \<noteq> (opt_secret opts = None)"
  shows "\<exists>w'. main env opts w = Some (Raises (SystemExit (- 1)), w')
     \<and> 0 < exit_status (Raises (SystemExit (- 1)))
     \<and> last (trace w') = Print usage_error
     \<and> filter network_event (trace w') = filter network_event (trace w)"
proof -
  define w' where "w' = emit (Print usage_error) (if opt_folder opts then snd (enter_folder opts w) else w)"
  have "main env opts w = Some (Raises (SystemExit (- 1)), w')"
    unfolding w'_def by (rule usage_exit [OF assms])
  moreover have "0 < exit_status (Raises (SystemExit (- 1)))"
    by (simp add: exit_status_def)
  moreover have "last (trace w') = Print usage_error"
    by (simp add: w'_def emit_def)
  moreover have "filter network_event (trace w') = filter network_event (trace w)"
    by (simp add: w'_def emit_def enter_folder_trace network_event_def)
  ultimately show ?thesis by blast
qed

theorem partial_credentials_exit_before_session_witness:
  "(opt_access (example_options\<lparr>opt_access := Some ''AKIA''\<rparr>) = None)
      \<noteq> (opt_secret (example_options\<lparr>opt_access := Some ''AKIA''\<rparr>) = None)
   \<and> main env0 (example_options\<lparr>opt_access := Some ''AKIA''\<rparr>) w0
       = Some (Raises (SystemExit (- 1)),
           \<lparr>cwd = ''/home/user/Exp1'', dirs = {''/home/user/Exp1'', ''/home/user''}, ticks = 0,
            trace = [Mkdir ''/home/user/Exp1'', Chdir ''/home/user/Exp1'', Print usage_error]\<rparr>)"
proof -
  have h: "(opt_access (example_options\<lparr>opt_access := Some ''AKIA''\<rparr>) = None)
      \<noteq> (opt_secret (example_options\<lparr>opt_access := Some ''AKIA''\<rparr>) = None)"
    by (simp add: example_options_def)
  from partial_credentials_exit_before_session [OF h, of env0 w0]
  obtain w' where "main env0 (example_options\<lparr>opt_access := Some ''AKIA''\<rparr>) w0
       = Some (Raises (SystemExit (- 1)), w')" by blast
  moreover have "main env0 (example_options\<lparr>opt_access := Some ''AKIA''\<rparr>) w0
       = Some (Raises (SystemExit (- 1)),
           \<lparr>cwd = ''/home/user/Exp1'', dirs = {''/home/user/Exp1'', ''/home/user''}, ticks = 0,
            trace = [Mkdir ''/home/user/Exp1'', Chdir ''/home/user/Exp1'', Print usage_error]\<rparr>)"
    by (simp add: main_def example_options_def enter_folder_def os_path_join_def w0_def Let_def
        os_mkdir_def os_chdir_def emit_def)
  ultimately show ?thesis using h by simp
qed

section \<open>Runs keep the directory and add only their own events\<close>

lemma grows_refl: "grows names w w"
  by (simp add: grows_def)

lemma grows_trans: "grows names w w1 \<Longrightarrow> grows names w1 w2 \<Longrightarrow> grows names w w2"
  by (auto simp: grows_def)

lemma run_event_mono:
  "set names \<subseteq> set names' \<Longrightarrow> run_event dir names e \<Longrightarrow> run_event dir names' e"
  by (auto simp: run_event_def split: event.splits)

lemma grows_mono: "set names \<subseteq> set names' \<Longrightarrow> grows names w w' \<Longrightarrow> grows names' w w'"
  using run_event_mono [of names names']
  by (fastforce simp: grows_def list_all_iff)

lemma grows_emit: "run_event (cwd w) names e \<Longrightarrow> grows names w (emit e w)"
  by (simp add: grows_def emit_def)

lemma grows_ticks: "grows names w (w\<lparr>ticks := n\<rparr>)"
  by (simp add: grows_def)

lemma scan_more_grows:
  assumes "scan_more tn (table :: ('k, 'a) table) r items w = Some y"
  shows "grows [tn] w (snd y)"
proof (rule scan_more.raw_induct
    [where P = "\<lambda>tn table r items w y. grows [tn] w (snd y)", OF _ assms])
  fix f tn and table :: "('k, 'a) table" and r :: "('k, 'a) response"
    and items and w :: "('k, 'a) world" and y :: "'a item list outcome \<times> ('k, 'a) world"
  assume IH: "\<And>tn table r items w y. f tn table r items w = Some y \<Longrightarrow> grows [tn] w (snd y)"
    and eq: "(case LastEvaluatedKey r of
        None \<Rightarrow> Some (Returns items, w)
      | Some k \<Rightarrow>
          (case table (Some k) of
             Inl e \<Rightarrow> Some (Raises e, emit (Scan tn (Some k)) w)
           | Inr response' \<Rightarrow>
               f tn table response' (items @ Items response')
                 (emit (Scan tn (Some k)) w))) = Some y"
  show "grows [tn] w (snd y)"
  proof (cases "LastEvaluatedKey r")
    case None
    with eq show ?thesis by (auto simp: grows_refl)
  next
    case (Some k)
    have step: "grows [tn] w (emit (Scan tn (Some k)) w)"
      by (rule grows_emit) (simp add: run_event_def)
    show ?thesis
    proof (cases "table (Some k)")
      case (Inl e)
      with eq Some step show ?thesis by auto
    next
      case (Inr r')
      with eq Some have "f tn table r' (items @ Items r') (emit (Scan tn (Some k)) w) = Some y"
        by simp
      then have "grows [tn] (emit (Scan tn (Some k)) w) (snd y)" by (rule IH)
      with step show ?thesis by (rule grows_trans)
    qed
  qed
qed

lemma scan_items_grows:
  assumes "scan_items dynamodb tn w = Some y"
  shows "grows [tn] w (snd y)"
proof -
  have step: "grows [tn] w (emit (Scan tn None) w)"
    by (rule grows_emit) (simp add: run_event_def)
  show ?thesis
  proof (cases "dynamodb tn None")
    case (Inl e)
    with assms step show ?thesis by (auto simp: scan_items_def)
  next
    case (Inr r)
    with assms have "scan_more tn (dynamodb tn) r (Items r) (emit (Scan tn None) w) = Some y"
      by (simp add: scan_items_def)
    then have "grows [tn] (emit (Scan tn None) w) (snd y)" by (rule scan_more_grows)
    with step show ?thesis by (rule grows_trans)
  qed
qed

lemma scan_table_to_df_grows:
  assumes "scan_table_to_df env dynamodb tn unpack w = Some y"
  shows "grows [tn] w (snd y)"
proof (cases "scan_items dynamodb tn w")
  case None
  with assms show ?thesis by (simp add: scan_table_to_df_def)
next
  case (Some z)
  then have "grows [tn] w (snd z)" by (rule scan_items_grows)
  moreover from assms Some have "snd y = snd z"
    by (cases z) (auto simp: scan_table_to_df_def Let_def split: outcome.splits sum.splits if_splits)
  ultimately show ?thesis by simp
qed

lemma save_dataframe_grows: "grows names w (save_dataframe df f sep w)"
  by (simp add: save_dataframe_def grows_def emit_def run_event_def)

lemma try_table_grows:
  assumes "try_table env dynamodb tn out w = Some y"
  shows "grows [tn] w (snd y)"
proof (cases "scan_table_to_df env dynamodb tn True w")
  case None
  with assms show ?thesis by (simp add: try_table_def)
next
  case (Some z)
  then have g: "grows [tn] w (snd z)" by (rule scan_table_to_df_grows)
  show ?thesis
  proof (cases z)
    case (Pair r w1)
    with assms Some g show ?thesis
      by (cases r) (auto simp: try_table_def intro: grows_trans [OF _ save_dataframe_grows])
  qed
qed

lemma except_not_found_grows:
  assumes "except_not_found msg r = Some y" and "\<And>z. r = Some z \<Longrightarrow> grows names w (snd z)"
  shows "grows names w (snd y)"
proof (cases r)
  case None
  with assms show ?thesis by (simp add: except_not_found_def)
next
  case (Some z)
  with assms(2) have g: "grows names w (snd z)" by simp
  have e: "grows names (snd z) (emit (Print msg) (snd z))"
    by (rule grows_emit) (simp add: run_event_def)
  from assms(1) Some have "snd y = snd z \<or> snd y = emit (Print msg) (snd z)"
    by (cases z) (auto simp: except_not_found_def split: outcome.splits if_splits)
  with g e show ?thesis by (auto intro: grows_trans)
qed

lemma download_loop_grows:
  assumes "download_loop env dynamodb pairs w = Some y"
  shows "grows (map fst pairs) w (snd y)"
  using assms
proof (induction pairs arbitrary: w)
  case Nil
  then show ?case by (auto simp: grows_refl)
next
  case (Cons pr pairs)
  obtain tbl out where pr: "pr = (tbl, out)" by (cases pr)
  let ?r = "except_not_found (not_found_message out tbl) (try_table env dynamodb tbl out w)"
  show ?case
  proof (cases ?r)
    case None
    with Cons.prems pr show ?thesis by simp
  next
    case (Some z)
    have "grows [tbl] w (snd z)"
      by (rule except_not_found_grows [OF Some]) (rule try_table_grows)
    then have g: "grows (map fst (pr # pairs)) w (snd z)"
      by (rule grows_mono [rotated]) (simp add: pr)
    show ?thesis
    proof (cases z)
      case (Pair r w1)
      show ?thesis
      proof (cases r)
        case (Raises e)
        with Cons.prems pr Some Pair g show ?thesis by auto
      next
        case (Returns u)
        with Cons.prems pr Some Pair have "download_loop env dynamodb pairs w1 = Some y"
          by simp
        then have "grows (map fst pairs) w1 (snd y)" by (rule Cons.IH)
        then have "grows (map fst (pr # pairs)) w1 (snd y)"
          by (rule grows_mono [rotated]) auto
        with g Pair show ?thesis by (auto intro: grows_trans)
      qed
    qed
  qed
qed

lemma get_output_file_name_grows:
  "grows names w (snd (get_output_file_name env experiment t w))"
  by (simp add: get_output_file_name_def Let_def grows_ticks)

lemma file_names_grows: "grows names w (snd (file_names env experiment ts w))"
proof (induction ts arbitrary: w)
  case Nil
  show ?case by (simp add: grows_refl)
next
  case (Cons t ts)
  have "grows names w (snd (get_output_file_name env experiment t w))"
    by (rule get_output_file_name_grows)
  moreover have "grows names (snd (get_output_file_name env experiment t w))
      (snd (file_names env experiment ts (snd (get_output_file_name env experiment t w))))"
    by (rule Cons.IH)
  ultimately show ?case
    by (auto simp: split_beta intro: grows_trans)
qed

lemma length_file_names: "length (fst (file_names env experiment ts w)) = length ts"
  by (induction ts arbitrary: w) (auto simp: split_beta)

lemma download_uxf_tables_grows:
  assumes "download_uxf_tables env dynamodb experiment tables prefix w = Some y"
  shows "grows (map (\<lambda>t. get_table_name experiment t prefix) tables) w (snd y)"
proof -
  let ?fw = "file_names env experiment tables w"
  let ?tn = "map (\<lambda>t. get_table_name experiment t prefix) tables"
  from assms have "download_loop env dynamodb (zip ?tn (fst ?fw)) (snd ?fw) = Some y"
    by (simp add: download_uxf_tables_def split_beta)
  then have "grows (map fst (zip ?tn (fst ?fw))) (snd ?fw) (snd y)"
    by (rule download_loop_grows)
  moreover have "map fst (zip ?tn (fst ?fw)) = ?tn"
    by (simp add: length_file_names)
  ultimately have "grows ?tn (snd ?fw) (snd y)" by simp
  moreover have "grows ?tn w (snd ?fw)" by (rule file_names_grows)
  ultimately show ?thesis by (rule grows_trans [rotated])
qed

lemma try_tracker_grows:
  assumes "try_tracker env dynamodb tn fname w = Some y"
  shows "grows [tn] w (snd y)"
proof (cases "scan_items dynamodb tn w")
  case None
  with assms show ?thesis by (simp add: try_tracker_def)
next
  case (Some z)
  then have g: "grows [tn] w (snd z)" by (rule scan_items_grows)
  show ?thesis
  proof (cases z)
    case (Pair r w1)
    with assms Some g show ?thesis
      by (cases r)
        (auto simp: try_tracker_def split: sum.splits
           intro: grows_trans [OF _ save_dataframe_grows])
  qed
qed

lemma download_tracker_data_grows:
  assumes "download_tracker_data env dynamodb experiment prefix w = Some y"
  shows "grows [get_table_name experiment ''Trackers'' prefix] w (snd y)"
proof -
  let ?tn = "get_table_name experiment ''Trackers'' prefix"
  let ?fw = "get_output_file_name env experiment ''Trackers'' w"
  from assms have e: "except_not_found (not_found_message (fst ?fw) ?tn)
      (try_tracker env dynamodb ?tn (fst ?fw) (snd ?fw)) = Some y"
    by (simp add: download_tracker_data_def split_beta Let_def)
  have "grows [?tn] (snd ?fw) (snd y)"
    by (rule except_not_found_grows [OF e]) (rule try_tracker_grows)
  moreover have "grows [?tn] w (snd ?fw)" by (rule get_output_file_name_grows)
  ultimately show ?thesis by (rule grows_trans [rotated])
qed

lemma download_all_grows:
  assumes "\<not> opt_p opts" and "download_all env ddb opts w = Some y"
  shows "grows (table_names opts) w (snd y)"
proof -
  let ?w0 = "emit (Print (retrieving_message (opt_experiment opts))) w"
  let ?ns = "map (\<lambda>t. get_table_name (opt_experiment opts) t PREFIX) TABLES"
  have sub: "set ?ns \<subseteq> set (table_names opts)"
    using assms(1) by (auto simp: table_names_def table_kinds_def)
  have g0: "grows (table_names opts) w ?w0"
    by (rule grows_emit) (simp add: run_event_def)
  show ?thesis
  proof (cases "download_uxf_tables env ddb (opt_experiment opts) TABLES PREFIX ?w0")
    case None
    with assms(2) show ?thesis by (simp add: download_all_def)
  next
    case (Some z)
    then have "grows ?ns ?w0 (snd z)" by (rule download_uxf_tables_grows)
    with sub have "grows (table_names opts) ?w0 (snd z)" by (rule grows_mono)
    with g0 have g1: "grows (table_names opts) w (snd z)" by (rule grows_trans)
    obtain r w1 where z: "z = (r, w1)" by (cases z)
    show ?thesis
    proof (cases r)
      case (Raises e)
      with assms(2) Some z g1 show ?thesis by (auto simp: download_all_def)
    next
      case (Returns u)
      let ?t = "if opt_tracker opts
                 then download_tracker_data env ddb (opt_experiment opts) PREFIX w1
                 else Some (Returns (), w1)"
      show ?thesis
      proof (cases ?t)
        case None
        with assms(2) Some z Returns show ?thesis by (simp add: download_all_def)
      next
        case (Some z')
        have g2: "grows (table_names opts) w1 (snd z')"
        proof (cases "opt_tracker opts")
          case True
          with Some have "grows [get_table_name (opt_experiment opts) ''Trackers'' PREFIX] w1 (snd z')"
            by (auto intro: download_tracker_data_grows)
          then show ?thesis
            by (rule grows_mono [rotated])
              (use True assms(1) in \<open>simp add: table_names_def table_kinds_def\<close>)
        next
          case False
          with Some show ?thesis by (auto simp: grows_refl)
        qed
        with g1 z have g3: "grows (table_names opts) w (snd z')" by (auto intro: grows_trans)
        have g4: "grows (table_names opts) (snd z') (emit (Print ''Download complete.'') (snd z'))"
          by (rule grows_emit) (simp add: run_event_def)
        from assms(2) \<open>download_uxf_tables env ddb (opt_experiment opts) TABLES PREFIX ?w0 = Some z\<close>
          z Returns Some
        have "snd y = snd z' \<or> snd y = emit (Print ''Download complete.'') (snd z')"
          by (cases z') (auto simp: download_all_def split: outcome.splits)
        with g3 g4 show ?thesis by (auto intro: grows_trans)
      qed
    qed
  qed
qed

lemma participant_details_grows:
  assumes "opt_p opts" and "participant_details env ddb opts w = Some y"
  shows "grows (table_names opts) w (snd y)"
proof -
  let ?w0 = "emit (Print (details_message (opt_experiment opts))) w"
  let ?tn = "get_table_name (opt_experiment opts) ''ParticipantDetails'' PREFIX"
  have ns: "table_names opts = [?tn]"
    using assms(1) by (simp add: table_names_def table_kinds_def)
  have g0: "grows [?tn] w ?w0"
    by (rule grows_emit) (simp add: run_event_def)
  show ?thesis
  proof (cases "scan_table_to_df env ddb ?tn True ?w0")
    case None
    with assms(2) show ?thesis by (simp add: participant_details_def)
  next
    case (Some z)
    then have "grows [?tn] ?w0 (snd z)" by (rule scan_table_to_df_grows)
    with g0 have g1: "grows [?tn] w (snd z)" by (rule grows_trans)
    obtain r w1 where z: "z = (r, w1)" by (cases z)
    show ?thesis
    proof (cases r)
      case (Raises e)
      with assms(2) Some z g1 ns show ?thesis by (auto simp: participant_details_def)
    next
      case (Returns df)
      let ?w2 = "emit (PrintFrame df) w1"
      let ?fw = "get_output_file_name env (opt_experiment opts) ''ParticipantDetails'' ?w2"
      have "grows [?tn] w1 ?w2"
        by (rule grows_emit) (simp add: run_event_def)
      moreover have "grows [?tn] ?w2 (snd ?fw)" by (rule get_output_file_name_grows)
      moreover have "grows [?tn] (snd ?fw) (save_dataframe df (fst ?fw) tab (snd ?fw))"
        by (rule save_dataframe_grows)
      ultimately have "grows [?tn] w1 (save_dataframe df (fst ?fw) tab (snd ?fw))"
        by (blast intro: grows_trans)
      with g1 z have "grows [?tn] w (save_dataframe df (fst ?fw) tab (snd ?fw))"
        by (auto intro: grows_trans)
      moreover from assms(2) Some z Returns
      have "snd y = save_dataframe df (fst ?fw) tab (snd ?fw)"
        by (auto simp: participant_details_def split_beta)
      ultimately show ?thesis using ns by simp
    qed
  qed
qed

lemma run_session_trace:
  assumes "run_session env opts prev args w = Some (r, w')"
  shows "\<exists>mid. trace w' = trace w @ mid
             @ (case r of Returns u \<Rightarrow> if opt_folder opts then [Chdir prev] else [] | Raises e \<Rightarrow> [])
       \<and> list_all (run_event (cwd w) (table_names opts)) mid
       \<and> cwd w' = (case r of Returns u \<Rightarrow> if opt_folder opts then prev else cwd w
                    | Raises e \<Rightarrow> cwd w)"
proof (cases "boto3_session env args")
  case (Inl e)
  with assms have "r = Raises e" "w' = emit (Session args) w"
    by (simp_all add: run_session_def)
  then have "trace w' = trace w @ [Session args] @ []"
    "list_all (run_event (cwd w) (table_names opts)) [Session args]" "cwd w' = cwd w"
    by (simp_all add: emit_def run_event_def)
  with \<open>r = Raises e\<close> show ?thesis by auto
next
  case (Inr ddb)
  let ?w0 = "emit (Session args) w"
  let ?b = "if opt_p opts then participant_details env ddb opts ?w0
            else download_all env ddb opts ?w0"
  show ?thesis
  proof (cases ?b)
    case None
    with assms Inr show ?thesis by (simp add: run_session_def)
  next
    case (Some z)
    then have "grows (table_names opts) ?w0 (snd z)"
      by (cases "opt_p opts") (auto intro: participant_details_grows download_all_grows)
    then obtain evs where evs: "trace (snd z) = trace w @ [Session args] @ evs"
      "list_all (run_event (cwd w) (table_names opts)) evs" "cwd (snd z) = cwd w"
      by (auto simp: grows_def emit_def)
    then have mid: "list_all (run_event (cwd w) (table_names opts)) ([Session args] @ evs)"
      by (simp add: run_event_def)
    obtain r1 w1 where z: "z = (r1, w1)" by (cases z)
    show ?thesis
    proof (cases r1)
      case (Raises e)
      with assms Inr Some z have "r = Raises e" "w' = w1"
        by (simp_all add: run_session_def)
      with evs mid z show ?thesis
        by (intro exI [of _ "[Session args] @ evs"]) simp
    next
      case (Returns u)
      with assms Inr Some z have r: "r = Returns ()"
        and w': "w' = (if opt_folder opts then os_chdir prev w1 else w1)"
        by (simp_all add: run_session_def)
      with evs mid z show ?thesis
        by (intro exI [of _ "[Session args] @ evs"]) (simp add: os_chdir_def emit_def)
    qed
  qed
qed

lemma enter_folder_eq:
  "enter_folder opts w =
     (cwd w,
      w\<lparr>cwd := data_folder opts w,
        dirs := insert (data_folder opts w) (dirs w),
        trace := trace w @ (if data_folder opts w \<in> dirs w then [] else [Mkdir (data_folder opts w)])
                  @ [Chdir (data_folder opts w)]\<rparr>)"
  by (simp add: enter_folder_def data_folder_def Let_def os_chdir_def os_mkdir_def emit_def
      insert_absorb)

lemma run_session_prev:
  "\<not> opt_folder opts \<Longrightarrow> run_session env opts prev args w = run_session env opts prev' args w"
  by (simp add: run_session_def split: sum.splits option.splits prod.splits outcome.splits)

lemma main_cases:
  assumes "main env opts w = Some (r, w')"
  obtains (usage) "r = Raises (SystemExit (- 1))"
      "w' = emit (Print usage_error) (if opt_folder opts then snd (enter_folder opts w) else w)"
  | (run) args where
      "run_session env opts (cwd w) args (if opt_folder opts then snd (enter_folder opts w) else w)
         = Some (r, w')"
proof -
  let ?w1 = "if opt_folder opts then snd (enter_folder opts w) else w"
  let ?prev = "if opt_folder opts then cwd w else []"
  let ?args = "(case opt_region opts of None \<Rightarrow> [] | Some r \<Rightarrow> [(''region_name'', r)])
                 @ (case opt_profile opts of None \<Rightarrow> [] | Some pr \<Rightarrow> [(''profile_name'', pr)])"
  have pw: "(if opt_folder opts then enter_folder opts w else ([], w)) = (?prev, ?w1)"
    by (simp add: enter_folder_eq)
  have prev: "run_session env opts ?prev args ?w1 = run_session env opts (cwd w) args ?w1" for args
    by (cases "opt_folder opts") (simp_all add: run_session_prev [of opts env "[]" _ _ "cwd w"])
  show ?thesis
  proof (cases "opt_access opts")
    case None
    note a = this
    show ?thesis
    proof (cases "opt_secret opts")
      case None
      with a assms have "run_session env opts ?prev ?args ?w1 = Some (r, w')"
        unfolding main_def pw by (simp add: Let_def)
      with prev show ?thesis by (auto intro: run)
    next
      case (Some s)
      with a assms have "r = Raises (SystemExit (- 1))" "w' = emit (Print usage_error) ?w1"
        unfolding main_def pw by (simp_all add: Let_def)
      then show ?thesis by (rule usage)
    qed
  next
    case (Some k)
    note a = this
    show ?thesis
    proof (cases "opt_secret opts")
      case None
      with a assms have "r = Raises (SystemExit (- 1))" "w' = emit (Print usage_error) ?w1"
        unfolding main_def pw by (simp_all add: Let_def)
      then show ?thesis by (rule usage)
    next
      case (Some s)
      with a assms have "run_session env opts ?prev
          (?args @ [(''aws_access_key_id'', k), (''aws_secret_access_key'', s)]) ?w1 = Some (r, w')"
        unfolding main_def pw by (simp add: Let_def)
      with prev show ?thesis by (auto intro: run)
    qed
  qed
qed

lemma main_trace:
  assumes "main env opts w = Some (r, w')"
  shows "\<exists>mid. trace w' = trace w
             @ (if opt_folder opts
                then (if data_folder opts w \<in> dirs w then [] else [Mkdir (data_folder opts w)])
                       @ [Chdir (data_folder opts w)]
                else [])
             @ mid
             @ (case r of Returns u \<Rightarrow> if opt_folder opts then [Chdir (cwd w)] else []
                | Raises e \<Rightarrow> [])
       \<and> list_all (run_event (if opt_folder opts then data_folder opts w else cwd w)
                    (table_names opts)) mid
       \<and> cwd w' = (case r of Returns u \<Rightarrow> cwd w
                    | Raises e \<Rightarrow> if opt_folder opts then data_folder opts w else cwd w)"
  using assms
proof (cases rule: main_cases)
  case usage
  then show ?thesis
    by (intro exI [of _ "[Print usage_error]"])
      (simp add: enter_folder_eq emit_def run_event_def)
next
  case (run args)
  from run_session_trace [OF run] obtain mid where
    mid: "trace w' = trace (if opt_folder opts then snd (enter_folder opts w) else w) @ mid
             @ (case r of Returns u \<Rightarrow> if opt_folder opts then [Chdir (cwd w)] else [] | Raises e \<Rightarrow> [])"
    "list_all (run_event (cwd (if opt_folder opts then snd (enter_folder opts w) else w))
        (table_names opts)) mid"
    "cwd w' = (case r of Returns u \<Rightarrow> if opt_folder opts then cwd w
                           else cwd (if opt_folder opts then snd (enter_folder opts w) else w)
                    | Raises e \<Rightarrow> cwd (if opt_folder opts then snd (enter_folder opts w) else w))"
    by blast
  then show ?thesis
    by (intro exI [of _ mid]) (auto simp: enter_folder_eq split: outcome.splits)
qed

section \<open>An example run\<close>

lemma env1_file_name:
  "get_output_file_name env1 ''Exp1'' t w
     = (''Exp1_'' @ t @ ''_20210315_1403.csv'', w\<lparr>ticks := Suc (ticks w)\<rparr>)"
  by (simp add: get_output_file_name_def env1_def env0_def example_stamp del: strftime.simps)

lemma env1_session: "boto3_session env1 args = Inr example_store"
  by (simp add: env1_def)

lemma try_table_raises:
  "scan_table_to_df env dynamodb tbl True w = Some (Raises e, w1) \<Longrightarrow>
   try_table env dynamodb tbl out w = Some (Raises e, w1)"
  by (simp add: try_table_def)

lemma download_loop_not_found:
  assumes "scan_table_to_df env dynamodb tbl True w = Some (Raises ResourceNotFoundException, w1)"
  shows "download_loop env dynamodb ((tbl, out) # rest) w
           = download_loop env dynamodb rest (emit (Print (not_found_message out tbl)) w1)"
  by (simp add: try_table_raises [OF assms] except_not_found_def)

lemma first_call_not_found:
  assumes "dynamodb tbl None = Inl ResourceNotFoundException"
  shows "scan_table_to_df env dynamodb tbl True w
           = Some (Raises ResourceNotFoundException, emit (Scan tbl None) w)"
  using assms by (simp add: scan_table_to_df_def scan_items_def)

lemma store_not_found:
  "download_loop env example_store ((''UXFData.Exp1.ParticipantDetails'', out) # rest) w
     = download_loop env example_store rest
         (emit (Print (not_found_message out ''UXFData.Exp1.ParticipantDetails''))
            (emit (Scan ''UXFData.Exp1.ParticipantDetails'' None) w))"
  by (rule download_loop_not_found, rule first_call_not_found) (simp add: example_store_def)

lemma store_empty:
  assumes "n \<noteq> ''UXFData.Exp1.ParticipantDetails''" and "n \<noteq> ''UXFData.Exp1.Trackers''"
  shows "download_loop env example_store ((n, out) # rest) w
     = download_loop env example_store rest
         (emit (Print (out @ '': no data, skipping.'')) (emit (Scan n None) w))"
proof -
  from assms have "scan_items example_store n w = Some (Returns [], emit (Scan n None) w)"
    by (simp add: scan_items_def example_store_def empty_table_def scan_more_last)
  then have "try_table env example_store n out w
     = Some (Returns (), emit (Print (out @ '': no data, skipping.'')) (emit (Scan n None) w))"
    by (rule empty_scan_is_skipped)
  then show ?thesis by (simp add: except_not_found_def)
qed

lemma example_downloads:
  "download_uxf_tables env1 example_store ''Exp1'' TABLES PREFIX w
     = Some (Returns (),
         w\<lparr>ticks := ticks w + 5,
           trace := trace w @ take 10 (drop 4 example_trace)\<rparr>)"
  unfolding download_uxf_tables_def TABLES_def PREFIX_def
  by (simp add: get_table_name_def env1_file_name store_not_found store_empty
      not_found_message_def emit_def example_trace_def del: download_loop.simps(2))

lemma example_download_all:
  "download_all env1 example_store example_options w
     = Some (Returns (),
         w\<lparr>ticks := ticks w + 5,
           trace := trace w @ take 12 (drop 3 example_trace)\<rparr>)"
  by (simp add: download_all_def example_downloads example_options_def emit_def
      example_trace_def)

lemma example_run:
  "main env1 example_options w0
     = Some (Returns (),
         \<lparr>cwd = ''/home/user'', dirs = {''/home/user/Exp1'', ''/home/user''}, ticks = 5,
          trace = example_trace\<rparr>)"
proof -
  have e: "enter_folder example_options w0
      = (''/home/user'',
         \<lparr>cwd = ''/home/user/Exp1'', dirs = {''/home/user/Exp1'', ''/home/user''}, ticks = 0,
          trace = take 2 example_trace\<rparr>)"
    by (simp add: enter_folder_def example_options_def os_path_join_def w0_def Let_def
        os_mkdir_def os_chdir_def emit_def example_trace_def)
  have o: "opt_folder example_options" "\<not> opt_p example_options"
    "opt_access example_options = None" "opt_secret example_options = None"
    "opt_region example_options = Some ''eu-west-1''" "opt_profile example_options = None"
    by (simp_all add: example_options_def)
  show ?thesis
    by (simp add: main_def run_session_def env1_session example_download_all e o
      os_chdir_def emit_def example_trace_def)
qed

section \<open>A table that is not found\<close>







section \<open>The subfolder\<close>

text \<open>
  Claim C10. With \<^verbatim>\<open>-f\<close>, a run that returns leaves the working directory as it found
  it. Its trace is: the folder made if it was not there, the change into the folder,
  then the session, the scans and the files, all written into the folder, with no
  directory call among them, and last the change back.
\<close>

theorem folder_is_entered_and_left:
  assumes "opt_folder opts" and "main env opts w = Some (Returns u, w')"
  shows "cwd w' = cwd w
     \<and> (\<exists>mid. trace w' = trace w
             @ (if data_folder opts w \<in> dirs w then [] else [Mkdir (data_folder opts w)])
             @ [Chdir (data_folder opts w)] @ mid @ [Chdir (cwd w)]
          \<and> list_all (run_event (data_folder opts w) (table_names opts)) mid)"
  using main_trace [OF assms(2)] assms(1) by auto

theorem folder_is_entered_and_left_witness:
  "opt_folder example_options
   \<and> main env1 example_options w0
       = Some (Returns (),
           \<lparr>cwd = ''/home/user'', dirs = {''/home/user/Exp1'', ''/home/user''}, ticks = 5,
            trace = example_trace\<rparr>)
   \<and> cwd w0 = ''/home/user''
   \<and> take 2 example_trace = [Mkdir ''/home/user/Exp1'', Chdir ''/home/user/Exp1'']
   \<and> last example_trace = Chdir ''/home/user''"
proof -
  have h: "opt_folder example_options" by (simp add: example_options_def)
  from folder_is_entered_and_left [OF h example_run]
  have "cwd \<lparr>cwd = ''/home/user'', dirs = {''/home/user/Exp1'', ''/home/user''}, ticks = 5,
            trace = example_trace\<rparr> = cwd w0"
    by blast
  then have "cwd w0 = ''/home/user''" by simp
  with h example_run show ?thesis by (simp add: example_trace_def)
qed

section \<open>The Trackers table\<close>

lemma get_table_name_inj:
  "get_table_name experiment t prefix = get_table_name experiment t' prefix \<longleftrightarrow> t = t'"
  by (simp add: get_table_name_def)

lemma trackers_not_default: "''Trackers'' \<notin> set TABLES"
  by (simp add: TABLES_def)

lemma tracker_name_not_listed:
  assumes "\<not> opt_tracker opts"
  shows "get_table_name (opt_experiment opts) ''Trackers'' PREFIX \<notin> set (table_names opts)"
  using assms
  by (auto simp: table_names_def table_kinds_def get_table_name_inj TABLES_def)

lemma scan_of_unlisted:
  assumes "list_all (run_event dir names) evs" and "n \<notin> set names"
  shows "filter (scan_of n) evs = []"
  using assms
  by (induction evs) (auto simp: run_event_def scan_of_def split: event.splits)

lemma main_never_scans_unlisted:
  assumes "main env opts w = Some (r, w')" and "n \<notin> set (table_names opts)"
  shows "filter (scan_of n) (trace w') = filter (scan_of n) (trace w)"
proof -
  from main_trace [OF assms(1)] obtain mid where
    tr: "trace w' = trace w
             @ (if opt_folder opts
                then (if data_folder opts w \<in> dirs w then [] else [Mkdir (data_folder opts w)])
                       @ [Chdir (data_folder opts w)]
                else [])
             @ mid
             @ (case r of Returns u \<Rightarrow> if opt_folder opts then [Chdir (cwd w)] else []
                | Raises e \<Rightarrow> [])"
    and mid: "list_all (run_event (if opt_folder opts then data_folder opts w else cwd w)
                    (table_names opts)) mid"
    by blast
  from scan_of_unlisted [OF mid assms(2)] show ?thesis
    unfolding tr by (simp add: scan_of_def split: outcome.splits)
qed

text \<open>Replacing a table that is not scanned changes nothing.\<close>

lemma scan_items_upd:
  "m \<noteq> n \<Longrightarrow> scan_items (ddb(n := tbl)) m w = scan_items ddb m w"
  by (simp add: scan_items_def)

lemma with_table_fields:
  "localtime (with_table n tbl env) = localtime env"
  "realign (with_table n tbl env) = realign env"
  by (simp_all add: with_table_def)

lemma get_output_file_name_env:
  "localtime env' = localtime env \<Longrightarrow>
   get_output_file_name env' experiment t w = get_output_file_name env experiment t w"
  by (simp add: get_output_file_name_def)

lemma file_names_env:
  assumes "localtime env' = localtime env"
  shows "file_names env' experiment ts w = file_names env experiment ts w"
  by (induction ts arbitrary: w) (simp_all add: get_output_file_name_env [OF assms])

lemma scan_table_to_df_upd:
  assumes "realign env' = realign env" and "m \<noteq> n"
  shows "scan_table_to_df env' (ddb(n := tbl)) m unpack w = scan_table_to_df env ddb m unpack w"
  unfolding scan_table_to_df_def assms(1) scan_items_upd [OF assms(2)] ..

lemma try_table_upd:
  assumes "realign env' = realign env" and "m \<noteq> n"
  shows "try_table env' (ddb(n := tbl)) m out w = try_table env ddb m out w"
  unfolding try_table_def scan_table_to_df_upd [OF assms] ..

lemma download_loop_upd:
  assumes "realign env' = realign env" and "n \<notin> fst ` set pairs"
  shows "download_loop env' (ddb(n := tbl)) pairs w = download_loop env ddb pairs w"
  using assms(2)
proof (induction pairs arbitrary: w)
  case Nil
  show ?case by simp
next
  case (Cons pr pairs)
  obtain m out where pr: "pr = (m, out)" by (cases pr)
  with Cons.prems have m: "m \<noteq> n" and np: "n \<notin> fst ` set pairs" by auto
  have IH: "download_loop env' (ddb(n := tbl)) pairs w1 = download_loop env ddb pairs w1"
    for w1 by (rule Cons.IH [OF np])
  show ?case
    unfolding pr download_loop.simps try_table_upd [OF assms(1) m] IH ..
qed

lemma download_uxf_tables_upd:
  assumes "realign env' = realign env" and "localtime env' = localtime env"
    and "n \<notin> set (map (\<lambda>t. get_table_name experiment t prefix) tables)"
  shows "download_uxf_tables env' (ddb(n := tbl)) experiment tables prefix w
       = download_uxf_tables env ddb experiment tables prefix w"
proof -
  let ?tn = "map (\<lambda>t. get_table_name experiment t prefix) tables"
  have "n \<notin> fst ` set (zip ?tn fs)" for fs :: "string list"
    using assms(3) by (auto dest: set_zip_leftD)
  then have h: "download_loop env' (ddb(n := tbl)) (zip ?tn fs) w1
      = download_loop env ddb (zip ?tn fs) w1" for fs :: "string list" and w1
    by (rule download_loop_upd [OF assms(1)])
  show ?thesis
    unfolding download_uxf_tables_def file_names_env [OF assms(2)] Let_def
    by (simp add: split_beta h)
qed

lemma download_all_upd:
  assumes "realign env' = realign env" and "localtime env' = localtime env"
    and "\<not> opt_tracker opts" and "\<not> opt_p opts"
  shows "download_all env' (ddb(get_table_name (opt_experiment opts) ''Trackers'' PREFIX := tbl)) opts w
       = download_all env ddb opts w"
proof -
  from tracker_name_not_listed [OF assms(3)] assms(3,4)
  have "get_table_name (opt_experiment opts) ''Trackers'' PREFIX
          \<notin> set (map (\<lambda>t. get_table_name (opt_experiment opts) t PREFIX) TABLES)"
    by (simp add: table_names_def table_kinds_def)
  note u = download_uxf_tables_upd [OF assms(1,2) this]
  have t: "(if opt_tracker opts then a else b) = b" for a b :: "'x"
    using assms(3) by simp
  show ?thesis
    unfolding download_all_def u t ..
qed

lemma participant_details_upd:
  assumes "realign env' = realign env" and "localtime env' = localtime env"
  shows "participant_details env' (ddb(get_table_name (opt_experiment opts) ''Trackers'' PREFIX := tbl)) opts w
       = participant_details env ddb opts w"
proof -
  have "get_table_name (opt_experiment opts) ''ParticipantDetails'' PREFIX
          \<noteq> get_table_name (opt_experiment opts) ''Trackers'' PREFIX"
    by (simp add: get_table_name_inj)
  note s = scan_table_to_df_upd [OF assms(1) this]
  show ?thesis
    unfolding participant_details_def s get_output_file_name_env [OF assms(2)] ..
qed

lemma run_session_upd:
  assumes "\<not> opt_tracker opts"
  shows "run_session (with_table (get_table_name (opt_experiment opts) ''Trackers'' PREFIX) tbl env)
           opts prev args w
       = run_session env opts prev args w"
proof (cases "boto3_session env args")
  case (Inl e)
  then show ?thesis by (simp add: run_session_def with_table_def)
next
  case (Inr ddb)
  let ?n = "get_table_name (opt_experiment opts) ''Trackers'' PREFIX"
  from Inr have s: "boto3_session (with_table ?n tbl env) args = Inr (ddb(?n := tbl))"
    by (simp add: with_table_def)
  note p = participant_details_upd [OF with_table_fields(2) with_table_fields(1)]
  show ?thesis
  proof (cases "opt_p opts")
    case True
    then show ?thesis
      unfolding run_session_def s Inr by (simp add: p)
  next
    case False
    note d = download_all_upd [OF with_table_fields(2) with_table_fields(1) assms False]
    from False show ?thesis
      unfolding run_session_def s Inr by (simp add: d)
  qed
qed

lemma main_upd:
  assumes "\<not> opt_tracker opts"
  shows "main (with_table (get_table_name (opt_experiment opts) ''Trackers'' PREFIX) tbl env) opts w
       = main env opts w"
  unfolding main_def run_session_upd [OF assms] ..

text \<open>
  Claim C9. \<^verbatim>\<open>Trackers\<close> is not in the default list \<^verbatim>\<open>TABLES\<close>. Without the flag \<^verbatim>\<open>-t\<close>
  the run is the same whatever the store holds as the Trackers table of the experiment,
  and a run that ends has made no scan call on that table.
\<close>

theorem trackers_only_on_request:
  assumes "\<not> opt_tracker opts"
  shows "''Trackers'' \<notin> set TABLES
     \<and> main (with_table (get_table_name (opt_experiment opts) ''Trackers'' PREFIX) tbl env) opts w
         = main env opts w
     \<and> (\<forall>r w'. main env opts w = Some (r, w') \<longrightarrow>
           filter (scan_of (get_table_name (opt_experiment opts) ''Trackers'' PREFIX)) (trace w')
             = filter (scan_of (get_table_name (opt_experiment opts) ''Trackers'' PREFIX)) (trace w))"
  using trackers_not_default main_upd [OF assms]
    main_never_scans_unlisted [OF _ tracker_name_not_listed [OF assms]]
  by blast

theorem trackers_only_on_request_witness:
  "\<not> opt_tracker example_options
   \<and> page_chain (example_store ''UXFData.Exp1.Trackers'') None example_pages
   \<and> main env1 example_options w0
       = Some (Returns (),
           \<lparr>cwd = ''/home/user'', dirs = {''/home/user/Exp1'', ''/home/user''}, ticks = 5,
            trace = example_trace\<rparr>)
   \<and> filter (scan_of ''UXFData.Exp1.Trackers'') example_trace = []"
proof -
  have h: "\<not> opt_tracker example_options" by (simp add: example_options_def)
  have n: "get_table_name (opt_experiment example_options) ''Trackers'' PREFIX
             = ''UXFData.Exp1.Trackers''"
    by (simp add: get_table_name_def example_options_def PREFIX_def)
  from trackers_only_on_request [OF h, of _ env1 w0] example_run
  have "filter (scan_of (get_table_name (opt_experiment example_options) ''Trackers'' PREFIX))
          (trace \<lparr>cwd = ''/home/user'', dirs = {''/home/user/Exp1'', ''/home/user''}, ticks = 5,
            trace = example_trace\<rparr>)
      = filter (scan_of (get_table_name (opt_experiment example_options) ''Trackers'' PREFIX))
          (trace w0)"
    by blast
  then have "filter (scan_of ''UXFData.Exp1.Trackers'') example_trace = []"
    unfolding n by (simp add: w0_def)
  moreover have "page_chain (example_store ''UXFData.Exp1.Trackers'') None example_pages"
    by (simp add: example_store_def example_table_def example_pages_def)
  ultimately show ?thesis using h example_run by simp
qed

section \<open>Unpacking a table of one record\<close>























section \<open>Lists of different lengths\<close>






section \<open>Scalar fields beside lists\<close>










end
